theory Spec2Isabelle
  imports Complex_Main
begin

section \<open>Data model\<close>

text \<open>
  The repository is one Python class, \<open>Solver\<close> (src/ode_solver.py). A Python float is
  a real number here. Where a float is turned into an integer, in the sample count, the
  rounding and the overflow of the machine operations are part of the model (see
  \<open>rounding\<close> below); the values of the samples themselves are computed with exact
  operations. Every raise of the source is a value of \<open>py_error\<close>, returned on the left
  of a sum.
\<close>

datatype py_error =
    IndexError
  | ZeroDivisionError
  | TypeError
  | ValueError
  | OverflowError
  | Exception string

text \<open>The four attributes stored by \<open>__init__\<close> (lines 45-49), under their own names.\<close>

record solver =
  f :: "real \<Rightarrow> real \<Rightarrow> real"
  boundary :: "real list"
  h :: real
  final_x :: real

subsection \<open>Python and numpy primitives used by the methods\<close>

text \<open>\<open>xs[i]\<close> for a non-negative literal index: IndexError out of range.\<close>

definition getitem :: "'a list \<Rightarrow> nat \<Rightarrow> py_error + 'a" where
  "getitem xs i = (if i < length xs then Inr (xs ! i) else Inl IndexError)"

text \<open>
  \<open>a / b\<close> on Python numbers raises ZeroDivisionError when \<open>b\<close> is zero. This exact
  division is the one of line 61, whose quotient enters the samples only.
\<close>

definition truediv :: "real \<Rightarrow> real \<Rightarrow> py_error + real" where
  "truediv a b = (if b = 0 then Inl ZeroDivisionError else Inr (a / b))"

text \<open>
  Floating-point operations round: the machine result of an operation is the double
  nearest to its exact result, and an infinity when that is out of range. The map from
  the exact result to the machine result is a parameter \<open>fl\<close> of everything below,
  with \<open>None\<close> for an infinity, so that what is proved holds for whatever the machine
  does. (Operands are floats; on Python ints beyond \<open>2^53\<close> the subtraction would be
  exact instead.)
\<close>

type_synonym rounding = "real \<Rightarrow> real option"

text \<open>
  \<open>a / b\<close> on floats, \<open>a\<close> possibly infinite: ZeroDivisionError when \<open>b\<close> is zero,
  an infinity when \<open>a\<close> is one.
\<close>

definition float_div :: "rounding \<Rightarrow> real option \<Rightarrow> real \<Rightarrow> py_error + real option" where
  "float_div fl a b =
     (if b = 0 then Inl ZeroDivisionError
      else Inr (case a of None \<Rightarrow> None | Some a' \<Rightarrow> fl (a' / b)))"

text \<open>\<open>np.abs(a)\<close> is exact, and \<open>a + b\<close> rounds.\<close>

definition float_abs :: "real option \<Rightarrow> real option" where
  "float_abs a = (case a of None \<Rightarrow> None | Some a' \<Rightarrow> Some \<bar>a'\<bar>)"

definition float_add :: "rounding \<Rightarrow> real option \<Rightarrow> real \<Rightarrow> real option" where
  "float_add fl a b = (case a of None \<Rightarrow> None | Some a' \<Rightarrow> fl (a' + b))"

text \<open>
  \<open>int(v)\<close> on a float truncates towards zero, and raises OverflowError on an
  infinity.
\<close>

definition py_int :: "real \<Rightarrow> int" where
  "py_int v = (if 0 \<le> v then \<lfloor>v\<rfloor> else \<lceil>v\<rceil>)"

definition int_of_float :: "real option \<Rightarrow> py_error + int" where
  "int_of_float v = (case v of None \<Rightarrow> Inl OverflowError | Some v' \<Rightarrow> Inr (py_int v'))"

text \<open>
  \<open>np.linspace(start, stop, num)\<close> with the default \<open>endpoint=True\<close>: \<open>num\<close> evenly
  spaced points, the single point \<open>start\<close> when \<open>num\<close> is 1, and no point when it is 0.
  A negative \<open>num\<close> raises ValueError (in \<open>x_samples\<close> below).
\<close>

definition linspace :: "real \<Rightarrow> real \<Rightarrow> nat \<Rightarrow> real list" where
  "linspace start stop num =
     (if num = 1 then [start]
      else map (\<lambda>i. start + real i * ((stop - start) / real (num - 1))) [0..<num])"

section \<open>The integration methods\<close>

text \<open>
  Lines 52, 64 and 83 build the x samples with one and the same expression,
  \<^verbatim>\<open>np.linspace(self.boundary[0], self.final_x,
       int(np.abs((self.final_x - self.boundary[0])/self.h) + 1))\<close>.
  \<open>n_samples\<close> is its third argument, \<open>x_samples\<close> the whole of it.
\<close>

definition n_samples :: "rounding \<Rightarrow> solver \<Rightarrow> py_error + int" where
  "n_samples fl s =
     (case getitem (boundary s) 0 of
        Inl e \<Rightarrow> Inl e
      | Inr x0 \<Rightarrow>
          (case float_div fl (fl (final_x s - x0)) (h s) of
             Inl e \<Rightarrow> Inl e
           | Inr q \<Rightarrow> int_of_float (float_add fl (float_abs q) 1)))"

definition x_samples :: "rounding \<Rightarrow> solver \<Rightarrow> py_error + real list" where
  "x_samples fl s =
     (case getitem (boundary s) 0 of
        Inl e \<Rightarrow> Inl e
      | Inr x0 \<Rightarrow>
          (case n_samples fl s of
             Inl e \<Rightarrow> Inl e
           | Inr n \<Rightarrow>
               (if n < 0 then Inl ValueError
                else Inr (linspace x0 (final_x s) (nat n)))))"

text \<open>
  \<open>y = np.empty(len(x)); y[0] = self.boundary[1]\<close> (lines 53-54, 65-66, 84-85). The cells
  of \<open>np.empty\<close> are uninitialised; they are \<open>0\<close> here, and each is written before it is
  read. Storing into an empty array raises IndexError.
\<close>

definition y_init :: "solver \<Rightarrow> real list \<Rightarrow> py_error + real list" where
  "y_init s x =
     (case getitem (boundary s) 1 of
        Inl e \<Rightarrow> Inl e
      | Inr y0 \<Rightarrow>
          (if length x = 0 then Inl IndexError
           else Inr ((replicate (length x) 0)[0 := y0])))"

text \<open>The loop \<open>for i in range(1, len(x))\<close> of each method is a fold over \<open>[1..<len(x)]\<close>.\<close>

definition euler :: "rounding \<Rightarrow> solver \<Rightarrow> py_error + (real list \<times> real list)" where
  "euler fl s =
     (case x_samples fl s of
        Inl e \<Rightarrow> Inl e
      | Inr x \<Rightarrow>
          (case y_init s x of
             Inl e \<Rightarrow> Inl e
           | Inr y \<Rightarrow>
               Inr (x, fold (\<lambda>i y. y[i := y ! (i - 1) + f s (x ! (i - 1)) (y ! (i - 1)) * h s])
                         [1..<length x] y)))"

definition runge2nd :: "rounding \<Rightarrow> solver \<Rightarrow> real \<Rightarrow> py_error + (real list \<times> real list)" where
  "runge2nd fl s a2 =
     (let a1 = 1 - a2 in
      case truediv 1 (2 * a2) of
        Inl e \<Rightarrow> Inl e
      | Inr p \<Rightarrow>
          (let q = p in
           case x_samples fl s of
             Inl e \<Rightarrow> Inl e
           | Inr x \<Rightarrow>
               (case y_init s x of
                  Inl e \<Rightarrow> Inl e
                | Inr y \<Rightarrow>
                    Inr (x, fold (\<lambda>i y. y[i := y ! (i - 1) +
                                 (a1 * f s (x ! (i - 1)) (y ! (i - 1)) +
                                  a2 * f s (x ! (i - 1) + p * h s)
                                           (y ! (i - 1) + q * f s (x ! (i - 1)) (y ! (i - 1)) * h s))
                                 * h s])
                              [1..<length x] y))))"

definition heun :: "rounding \<Rightarrow> solver \<Rightarrow> py_error + (real list \<times> real list)" where
  "heun fl s = runge2nd fl s (1 / 2)"

definition ralston :: "rounding \<Rightarrow> solver \<Rightarrow> py_error + (real list \<times> real list)" where
  "ralston fl s = runge2nd fl s (2 / 3)"

definition midpoint :: "rounding \<Rightarrow> solver \<Rightarrow> py_error + (real list \<times> real list)" where
  "midpoint fl s = runge2nd fl s 1"

definition classic4th :: "rounding \<Rightarrow> solver \<Rightarrow> py_error + (real list \<times> real list)" where
  "classic4th fl s =
     (case x_samples fl s of
        Inl e \<Rightarrow> Inl e
      | Inr x \<Rightarrow>
          (case y_init s x of
             Inl e \<Rightarrow> Inl e
           | Inr y \<Rightarrow>
               Inr (x, fold (\<lambda>i y.
                          (let k1 = f s (x ! (i - 1)) (y ! (i - 1));
                               k2 = f s (x ! (i - 1) + h s / 2) (y ! (i - 1) + k1 * h s / 2);
                               k3 = f s (x ! (i - 1) + h s / 2) (y ! (i - 1) + k2 * h s / 2);
                               k4 = f s (x ! (i - 1) + h s) (y ! (i - 1) + k3 * h s)
                           in y[i := y ! (i - 1) + (1 / 6) * (k1 + 2 * k2 + 2 * k3 + k4) * h s]))
                         [1..<length x] y)))"

text \<open>
  The six operations, \<open>runge2nd\<close> at a coefficient \<open>a2\<close>, as one list: "every
  integration method" in a statement is "every member of \<open>methods a2\<close>".
\<close>

definition methods :: "real \<Rightarrow> (rounding \<Rightarrow> solver \<Rightarrow> py_error + (real list \<times> real list)) list" where
  "methods a2 = [euler, (\<lambda>fl s. runge2nd fl s a2), heun, ralston, midpoint, classic4th]"

section \<open>compare\<close>

text \<open>
  \<open>compare\<close> (lines 96-107) validates every label against \<open>dir(self)\<close>, then evaluates
  the text \<open>'self.' + label\<close> with Python's \<open>eval\<close>, unpacks the value into
  \<open>plt.plot\<close> and stores it in a dict. Values of the Python objects that can reach
  \<open>plt.plot\<close>:
\<close>

datatype py_value =
    Num real
  | PyList "real list"
  | Function
  | BoundMethod string
  | Samples "real list" "real list"
  | Foreign nat

text \<open>
  What the Python runtime and matplotlib contribute is not in the repository and is a
  parameter: the attribute names every object inherits (\<open>__class__\<close>, \<open>__doc__\<close>, ...,
  which vary with the interpreter), the value of \<open>eval\<close> on any text outside the
  fragment written out in \<open>py_eval\<close> below, and what \<open>plt.plot\<close> does with positional
  arguments that are not two arrays.
\<close>

record py_env =
  object_names :: "string list"
  eval_other :: "solver \<Rightarrow> string \<Rightarrow> py_error + py_value"
  plot_other :: "py_value \<Rightarrow> py_error + unit"

text \<open>
  \<open>dir(self)\<close>: the instance attributes set by \<open>__init__\<close>, the functions defined in the
  class body, and the inherited names.
\<close>

definition py_dir :: "py_env \<Rightarrow> string list" where
  "py_dir env =
     [''f'', ''boundary'', ''h'', ''final_x''] @
     [''__init__'', ''euler'', ''runge2nd'', ''heun'', ''ralston'', ''midpoint'',
      ''classic4th'', ''compare''] @
     object_names env"

text \<open>\<open>i.split('(')[0]\<close>: the text before the first opening parenthesis, all of \<open>i\<close> if none.\<close>

definition method_name :: "string \<Rightarrow> string" where
  "method_name i = takeWhile (\<lambda>c. c \<noteq> CHR ''('') i"

text \<open>The message of line 99, \<open>f'There is no method called \'{i}\''\<close>.\<close>

definition no_method_msg :: "string \<Rightarrow> string" where
  "no_method_msg i = ''There is no method called '' @ [CHR 0x27] @ i @ [CHR 0x27]"

text \<open>The first loop (lines 97-99).\<close>

fun validate :: "py_env \<Rightarrow> string list \<Rightarrow> py_error + unit" where
  "validate env [] = Inr ()"
| "validate env (i # args) =
     (if \<not> method_name i \<in> set (py_dir env) then Inl (Exception (no_method_msg i))
      else validate env args)"

text \<open>
  \<open>eval('self.' + i)\<close> on the fragment that is written out: a bare attribute name is an
  attribute access (a bound method for a function of the class, the stored value for an
  instance attribute), and the name of a method without parameters followed by \<open>()\<close> is
  a call. Every other text is left to \<open>eval_other\<close>.
\<close>

definition lift_samples :: "py_error + (real list \<times> real list) \<Rightarrow> py_error + py_value" where
  "lift_samples r = (case r of Inl e \<Rightarrow> Inl e | Inr (x, y) \<Rightarrow> Inr (Samples x y))"

definition py_eval :: "rounding \<Rightarrow> solver \<Rightarrow> py_env \<Rightarrow> string \<Rightarrow> py_error + py_value" where
  "py_eval fl s env i =
     (if i \<in> set [''__init__'', ''euler'', ''runge2nd'', ''heun'', ''ralston'', ''midpoint'',
                   ''classic4th'', ''compare'']
      then Inr (BoundMethod i)
      else if i = ''f'' then Inr Function
      else if i = ''boundary'' then Inr (PyList (boundary s))
      else if i = ''h'' then Inr (Num (h s))
      else if i = ''final_x'' then Inr (Num (final_x s))
      else if i = ''euler()'' then lift_samples (euler fl s)
      else if i = ''heun()'' then lift_samples (heun fl s)
      else if i = ''ralston()'' then lift_samples (ralston fl s)
      else if i = ''midpoint()'' then lift_samples (midpoint fl s)
      else if i = ''classic4th()'' then lift_samples (classic4th fl s)
      else eval_other env s i)"

text \<open>
  \<open>plt.plot(*result, label = i)\<close>: unpacking a number, a function or a bound method
  raises TypeError before \<open>plt.plot\<close> is entered; two arrays are plotted when their
  lengths agree, and matplotlib raises ValueError when they do not.
\<close>

definition plot_unpacked :: "py_env \<Rightarrow> py_value \<Rightarrow> py_error + unit" where
  "plot_unpacked env v =
     (case v of
        Num _ \<Rightarrow> Inl TypeError
      | Function \<Rightarrow> Inl TypeError
      | BoundMethod _ \<Rightarrow> Inl TypeError
      | Samples x y \<Rightarrow> (if length x = length y then Inr () else Inl ValueError)
      | PyList _ \<Rightarrow> plot_other env v
      | Foreign _ \<Rightarrow> plot_other env v)"

text \<open>
  \<open>results[i] = result\<close> on a Python dict: a key already present keeps its position and
  takes the new value, a new key goes to the end.
\<close>

fun dict_set :: "(string \<times> py_value) list \<Rightarrow> string \<Rightarrow> py_value \<Rightarrow> (string \<times> py_value) list" where
  "dict_set [] k v = [(k, v)]"
| "dict_set ((k', v') # d) k v =
     (if k' = k then (k', v) # d else (k', v') # dict_set d k v)"

text \<open>The second loop (lines 101-104), and the whole method. \<open>plt.legend()\<close> and
  \<open>plt.show()\<close> only draw.\<close>

fun run_labels ::
  "rounding \<Rightarrow> solver \<Rightarrow> py_env \<Rightarrow> string list \<Rightarrow> (string \<times> py_value) list
     \<Rightarrow> py_error + (string \<times> py_value) list" where
  "run_labels fl s env [] results = Inr results"
| "run_labels fl s env (i # args) results =
     (case py_eval fl s env i of
        Inl e \<Rightarrow> Inl e
      | Inr result \<Rightarrow>
          (case plot_unpacked env result of
             Inl e \<Rightarrow> Inl e
           | Inr _ \<Rightarrow> run_labels fl s env args (dict_set results i result)))"

definition compare :: "rounding \<Rightarrow> solver \<Rightarrow> py_env \<Rightarrow> string list \<Rightarrow> py_error + (string \<times> py_value) list" where
  "compare fl s env args =
     (case validate env args of
        Inl e \<Rightarrow> Inl e
      | Inr _ \<Rightarrow> run_labels fl s env args [])"

section \<open>The formulas of the specification\<close>

text \<open>
  The step formulas of section 4.1 of the specification, with the step as a parameter,
  and its sample count \<open>round(|x_final - x0| / |h|) + 1\<close>, where \<open>round\<close> is the nearest
  integer and a fractional part of one half goes up. They follow the specification's
  words and are what the methods above are compared with.
\<close>

definition euler_formula :: "(real \<Rightarrow> real \<Rightarrow> real) \<Rightarrow> real \<Rightarrow> real \<Rightarrow> real \<Rightarrow> real" where
  "euler_formula g step x y = y + g x y * step"

definition runge2nd_formula ::
  "(real \<Rightarrow> real \<Rightarrow> real) \<Rightarrow> real \<Rightarrow> real \<Rightarrow> real \<Rightarrow> real \<Rightarrow> real" where
  "runge2nd_formula g a2 step x y =
     (let a1 = 1 - a2; p = 1 / (2 * a2); q = p; k1 = g x y
      in y + (a1 * k1 + a2 * g (x + p * step) (y + q * k1 * step)) * step)"

definition classic4th_formula :: "(real \<Rightarrow> real \<Rightarrow> real) \<Rightarrow> real \<Rightarrow> real \<Rightarrow> real \<Rightarrow> real" where
  "classic4th_formula g step x y =
     (let k1 = g x y;
          k2 = g (x + step / 2) (y + k1 * step / 2);
          k3 = g (x + step / 2) (y + k2 * step / 2);
          k4 = g (x + step) (y + k3 * step)
      in y + (1 / 6) * (k1 + 2 * k2 + 2 * k3 + k4) * step)"

definition spec_n_samples :: "solver \<Rightarrow> nat" where
  "spec_n_samples s = nat (round (\<bar>final_x s - boundary s ! 0\<bar> / \<bar>h s\<bar>)) + 1"

text \<open>The operations the specification gives the Integrator (section 4.1).\<close>

definition integrator_operations :: "string list" where
  "integrator_operations =
     [''euler'', ''runge2nd'', ''heun'', ''ralston'', ''midpoint'', ''classic4th'']"

section \<open>Roundings\<close>

text \<open>
  The one property of the machine's rounding that the statements below lean on: a
  result that is at least 1 is not rounded to less than 1, as 1 is itself a double.
\<close>

definition rounds_above_one :: "rounding \<Rightarrow> bool" where
  "rounds_above_one fl \<longleftrightarrow> (\<forall>x r. 1 \<le> x \<and> fl x = Some r \<longrightarrow> 1 \<le> r)"

text \<open>
  The rounding that changes nothing, for comparison: with it the sample count is the
  floor of the exact quotient, plus one (\<open>n_samples_exact\<close> below).
\<close>

definition exact :: rounding where
  "exact x = Some x"

text \<open>
  The rounding of IEEE 754 double precision, to nearest with ties to even, which is
  what Python floats and \<open>np.float64\<close> use. A number \<open>x\<close> with
  \<open>2^e \<le> |x| < 2^(e+1)\<close> is rounded to a multiple of \<open>2^(e-52)\<close>, where \<open>e\<close> is not
  taken below \<open>-1022\<close> (the subnormal numbers); a result of magnitude \<open>2^1024\<close> or more
  is an infinity.
\<close>

definition round_half_even :: "real \<Rightarrow> int" where
  "round_half_even x =
     (let k = \<lfloor>x\<rfloor>; r = x - of_int k
      in if r < 1 / 2 then k else if 1 / 2 < r then k + 1 else if even k then k else k + 1)"

definition double_limit :: real where
  "double_limit = 2 ^ 1024"

definition ulp :: "int \<Rightarrow> real" where
  "ulp e = 2 powr of_int (e - 52)"

definition round_double :: rounding where
  "round_double x =
     (if x = 0 then Some 0
      else let e = max \<lfloor>log 2 \<bar>x\<bar>\<rfloor> (- 1022);
               r = of_int (round_half_even (x / ulp e)) * ulp e
           in if double_limit \<le> \<bar>r\<bar> then None else Some r)"

section \<open>Example configurations\<close>

text \<open>\<open>dy/dx = y\<close> from \<open>(0, 1)\<close> to \<open>x = 1\<close> in steps of \<open>1/2\<close>: the step divides the interval.\<close>

definition cfg_even :: solver where
  "cfg_even = \<lparr>f = (\<lambda>x y. y), boundary = [0, 1], h = 1 / 2, final_x = 1\<rparr>"

text \<open>\<open>dy/dx = 1\<close> from \<open>(0, 0)\<close> to \<open>x = 7\<close> in steps of \<open>4\<close>: the quotient is \<open>1.75\<close>.\<close>

definition cfg_uneven :: solver where
  "cfg_uneven = \<lparr>f = (\<lambda>x y. 1), boundary = [0, 0], h = 4, final_x = 7\<rparr>"


text \<open>
  The first configuration with the step written \<open>0.1\<close>, which is the double
  \<open>3602879701896397 / 2^55\<close>, and with the end point written \<open>0.9999999999999999\<close>,
  which is the double \<open>1 - 1/2^53\<close>, and a step of 1.
\<close>

definition cfg_tenth :: solver where
  "cfg_tenth = \<lparr>f = (\<lambda>x y. y), boundary = [0, 1], h = 3602879701896397 / 2 ^ 55, final_x = 1\<rparr>"

definition cfg_below_one :: solver where
  "cfg_below_one = \<lparr>f = (\<lambda>x y. y), boundary = [0, 1], h = 1, final_x = 1 - 1 / 2 ^ 53\<rparr>"

text \<open>The first configuration with a step of \<open>0\<close>.\<close>

definition cfg_zero_step :: solver where
  "cfg_zero_step = \<lparr>f = (\<lambda>x y. y), boundary = [0, 1], h = 0, final_x = 1\<rparr>"

text \<open>
  An environment: some of the names CPython's \<open>object\<close> provides, an \<open>eval\<close> that
  raises on every text outside the fragment, and a \<open>plt.plot\<close> that accepts every
  argument list.
\<close>

definition env_sample :: py_env where
  "env_sample =
     \<lparr>object_names = [''__class__'', ''__dict__'', ''__doc__'', ''__eq__'', ''__repr__'', ''__str__''],
      eval_other = (\<lambda>s i. Inl ValueError),
      plot_other = (\<lambda>v. Inr ())\<rparr>"

section \<open>The skeleton shared by the methods\<close>

text \<open>
  \<open>euler\<close>, \<open>runge2nd\<close> and \<open>classic4th\<close> are one skeleton and differ only in the value
  \<open>G x i (y[i-1])\<close> that the loop stores into \<open>y[i]\<close>. The skeleton is used to state
  lemmas about all of them at once; \<open>euler_shape\<close>, \<open>runge2nd_shape\<close> and
  \<open>classic4th_shape\<close> below prove that each method is an instance.
\<close>

definition loop_shape ::
  "rounding \<Rightarrow> solver \<Rightarrow> (real list \<Rightarrow> nat \<Rightarrow> real \<Rightarrow> real)
     \<Rightarrow> py_error + (real list \<times> real list)" where
  "loop_shape fl s G =
     (case x_samples fl s of
        Inl e \<Rightarrow> Inl e
      | Inr x \<Rightarrow>
          (case y_init s x of
             Inl e \<Rightarrow> Inl e
           | Inr y \<Rightarrow> Inr (x, fold (\<lambda>i y. y[i := G x i (y ! (i - 1))]) [1..<length x] y)))"

section \<open>Helper lemmas\<close>

subsection \<open>The loop of the methods\<close>

text \<open>
  A loop \<open>for i in range(1, m): y[i] = G(i, y[i-1])\<close> keeps the length of \<open>y\<close>, leaves
  cell 0 and the cells from \<open>m\<close> on as they were, and makes every cell in between the
  image of its predecessor.
\<close>

lemma fold_upd_inv:
  fixes G :: "nat \<Rightarrow> 'a \<Rightarrow> 'a"
  assumes "m \<le> length y"
  shows "length (fold (\<lambda>i y. y[i := G i (y ! (i - 1))]) [1..<m] y) = length y
       \<and> (\<forall>j. m \<le> j \<or> j = 0 \<longrightarrow> fold (\<lambda>i y. y[i := G i (y ! (i - 1))]) [1..<m] y ! j = y ! j)
       \<and> (\<forall>j. 0 < j \<and> j < m \<longrightarrow> fold (\<lambda>i y. y[i := G i (y ! (i - 1))]) [1..<m] y ! j
              = G j (fold (\<lambda>i y. y[i := G i (y ! (i - 1))]) [1..<m] y ! (j - 1)))"
  using assms
proof (induction m)
  case 0
  then show ?case by simp
next
  case (Suc m)
  show ?case
  proof (cases "m = 0")
    case True
    then show ?thesis by simp
  next
    case False
    let ?r = "fold (\<lambda>i y. y[i := G i (y ! (i - 1))]) [1..<m] y"
    let ?r' = "?r[m := G m (?r ! (m - 1))]"
    have up: "[1..<Suc m] = [1..<m] @ [m]" using False by simp
    from Suc.prems have "m \<le> length y" by simp
    note IH = Suc.IH [OF this]
    have ih1: "length ?r = length y" using IH by blast
    have ih2: "\<And>j. m \<le> j \<or> j = 0 \<Longrightarrow> ?r ! j = y ! j" using IH by blast
    have ih3: "\<And>j. 0 < j \<Longrightarrow> j < m \<Longrightarrow> ?r ! j = G j (?r ! (j - 1))" using IH by blast
    have r': "fold (\<lambda>i y. y[i := G i (y ! (i - 1))]) [1..<Suc m] y = ?r'"
      unfolding up by simp
    have mlt: "m < length ?r" using Suc.prems ih1 by simp
    have c1: "length ?r' = length y" using ih1 by simp
    have c2: "?r' ! j = y ! j" if "Suc m \<le> j \<or> j = 0" for j
    proof -
      from that False have "j \<noteq> m" by auto
      then have "?r' ! j = ?r ! j" by simp
      also have "\<dots> = y ! j" using that by (intro ih2) auto
      finally show ?thesis .
    qed
    have c3: "?r' ! j = G j (?r' ! (j - 1))" if "0 < j" "j < Suc m" for j
    proof (cases "j = m")
      case True
      have "m - 1 \<noteq> m" using False by simp
      then have "?r' ! (m - 1) = ?r ! (m - 1)" by (simp only: nth_list_update_neq not_sym)
      moreover have "?r' ! m = G m (?r ! (m - 1))" using mlt by simp
      ultimately show ?thesis using True by simp
    next
      case F: False
      then have jm: "j < m" using that by simp
      have "j - 1 \<noteq> m" using jm by simp
      then have a: "?r' ! (j - 1) = ?r ! (j - 1)" by (simp only: nth_list_update_neq not_sym)
      have b: "?r' ! j = ?r ! j" using F by simp
      show ?thesis unfolding a b using that(1) jm by (rule ih3)
    qed
    show ?thesis unfolding r' using c1 c2 c3 by blast
  qed
qed

subsection \<open>Sample count and x samples\<close>

lemma n_samples_ok:
  assumes "h s \<noteq> 0" "boundary s \<noteq> []"
    and "fl (final_x s - boundary s ! 0) = Some d" "fl (d / h s) = Some q"
    and "fl (\<bar>q\<bar> + 1) = Some v"
  shows "n_samples fl s = Inr (py_int v)"
  using assms
  by (simp add: n_samples_def getitem_def float_div_def float_abs_def float_add_def
      int_of_float_def)

lemma n_samples_Inr:
  assumes "n_samples fl s = Inr n"
  shows "h s \<noteq> 0 \<and> boundary s \<noteq> []
       \<and> (\<exists>d q v. fl (final_x s - boundary s ! 0) = Some d \<and> fl (d / h s) = Some q
              \<and> fl (\<bar>q\<bar> + 1) = Some v \<and> n = py_int v)"
  using assms
  by (auto simp: n_samples_def getitem_def float_div_def float_abs_def float_add_def
      int_of_float_def split: if_splits sum.splits option.splits)

lemma n_samples_overflow:
  assumes "h s \<noteq> 0" "boundary s \<noteq> []"
    and "fl (final_x s - boundary s ! 0) = None
       \<or> (\<exists>d. fl (final_x s - boundary s ! 0) = Some d \<and> fl (d / h s) = None)"
  shows "n_samples fl s = Inl OverflowError"
  using assms
  by (auto simp: n_samples_def getitem_def float_div_def float_abs_def float_add_def
      int_of_float_def)

lemma py_int_floor:
  assumes "0 \<le> v"
  shows "py_int v = \<lfloor>v\<rfloor>"
  using assms by (simp add: py_int_def)

lemma n_samples_pos:
  assumes "rounds_above_one fl" "n_samples fl s = Inr n"
  shows "1 \<le> n"
proof -
  from n_samples_Inr [OF assms(2)] obtain q v where
    v: "fl (\<bar>q\<bar> + 1) = Some v" and n: "n = py_int v" by blast
  have "1 \<le> \<bar>q\<bar> + 1" by simp
  with assms(1) v have "1 \<le> v" unfolding rounds_above_one_def by blast
  then have "1 \<le> \<lfloor>v\<rfloor>" by linarith
  with \<open>1 \<le> v\<close> n show ?thesis by (simp add: py_int_def)
qed

lemma rounds_above_one_exact: "rounds_above_one exact"
  by (simp add: rounds_above_one_def exact_def)

text \<open>Without rounding the count is the floor of the quotient, plus one.\<close>

lemma n_samples_exact:
  assumes "h s \<noteq> 0" "boundary s \<noteq> []"
  shows "n_samples exact s = Inr (\<lfloor>\<bar>final_x s - boundary s ! 0\<bar> / \<bar>h s\<bar>\<rfloor> + 1)"
proof -
  have "py_int (\<bar>(final_x s - boundary s ! 0) / h s\<bar> + 1)
          = \<lfloor>\<bar>(final_x s - boundary s ! 0) / h s\<bar>\<rfloor> + 1"
    by (simp add: py_int_def)
  also have "\<dots> = \<lfloor>\<bar>final_x s - boundary s ! 0\<bar> / \<bar>h s\<bar>\<rfloor> + 1"
    by (simp only: abs_divide)
  finally show ?thesis
    using n_samples_ok [OF assms, of exact "final_x s - boundary s ! 0"
        "(final_x s - boundary s ! 0) / h s" "\<bar>(final_x s - boundary s ! 0) / h s\<bar> + 1"]
    by (simp add: exact_def)
qed

text \<open>
  With rounding it need not be. The double written \<open>0.1\<close> is
  \<open>3602879701896397 / 2^55\<close>; the quotient of 1 by it is a little less than 10 and the
  machine rounds it to 10, so that 11 samples are produced, where the floor gives 10.
  The double written \<open>0.9999999999999999\<close> is \<open>1 - 1/2^53\<close>; adding 1 gives a number
  halfway between two doubles, which the machine rounds to 2, so that a step of 1 gives
  2 samples, where the floor gives 1.
\<close>

lemma n_samples_rounded_quotient:
  assumes "fl 1 = Some 1" "fl (1 / (3602879701896397 / 2 ^ 55)) = Some 10" "fl 11 = Some 11"
  shows "n_samples fl \<lparr>f = g, boundary = [0, y0], h = 3602879701896397 / 2 ^ 55, final_x = 1\<rparr>
           = Inr 11"
  using assms
  by (simp add: n_samples_def getitem_def float_div_def float_abs_def float_add_def
      int_of_float_def py_int_def)


subsection \<open>The rounding of the doubles\<close>

lemma round_half_even_ge: "\<lfloor>x\<rfloor> \<le> round_half_even x"
  by (simp add: round_half_even_def Let_def)

lemma round_double_at:
  fixes x :: real
  assumes "0 < x" "2 powr of_int e \<le> x" "x < 2 powr of_int (e + 1)" "- 1022 \<le> e"
    and "round_half_even (x / ulp e) = k"
    and "\<bar>of_int k * ulp e\<bar> < double_limit"
  shows "round_double x = Some (of_int k * ulp e)"
proof -
  have "\<lfloor>log 2 x\<rfloor> = e"
    using assms(1,2,3) by (subst floor_log_eq_powr_iff) (simp_all add: add.commute)
  then have "max \<lfloor>log 2 \<bar>x\<bar>\<rfloor> (- 1022) = e" using assms(1,4) by simp
  then show ?thesis
    using assms(1,5,6) by (simp add: round_double_def Let_def)
qed

lemma ulp_0: "ulp 0 = 1 / 2 ^ 52"
  by (simp add: ulp_def powr_minus inverse_eq_divide)

lemma small: "(x::real) \<le> 2 ^ 60 \<Longrightarrow> 0 \<le> x \<Longrightarrow> \<bar>x\<bar> < double_limit"
proof -
  assume a: "x \<le> 2 ^ 60" "0 \<le> x"
  have "(2::real) ^ 60 < 2 ^ 1024" by (rule power_strict_increasing) simp_all
  with a show ?thesis by (simp add: double_limit_def)
qed

lemma round_double_1: "round_double 1 = Some 1"
proof -
  have k: "round_half_even (1 / ulp 0) = 2 ^ 52"
    by (simp add: ulp_0 round_half_even_def Let_def)
  have l: "\<bar>of_int (2 ^ 52) * ulp 0\<bar> < double_limit"
    by (rule small) (simp_all add: ulp_0)
  have "round_double 1 = Some (of_int (2 ^ 52) * ulp 0)"
    by (rule round_double_at [OF _ _ _ _ k l]) simp_all
  then show ?thesis by (simp add: ulp_0)
qed


lemma rounds_above_one_double: "rounds_above_one round_double"
  unfolding rounds_above_one_def
proof (intro allI impI)
  fix x r :: real
  assume a: "1 \<le> x \<and> round_double x = Some r"
  then have x: "1 \<le> x" "0 < x" "x \<noteq> 0" by simp_all
  define e where "e = \<lfloor>log 2 x\<rfloor>"
  have "0 \<le> log 2 x" using x(1) by simp
  then have e0: "0 \<le> e" unfolding e_def by simp
  have ax: "\<bar>x\<bar> = x" using x(2) by simp
  have m: "max \<lfloor>log 2 \<bar>x\<bar>\<rfloor> (- 1022) = e"
    unfolding ax e_def [symmetric] using e0 by simp
  have r: "r = of_int (round_half_even (x / ulp e)) * ulp e"
    using a x(3) m by (simp add: round_double_def Let_def split: if_splits)
  have u: "0 < ulp e" by (simp add: ulp_def)
  have "of_int e \<le> log 2 x" unfolding e_def by simp
  then have "2 powr of_int e \<le> 2 powr log 2 x" by simp
  then have pe: "2 powr of_int e \<le> x" using x(2) by simp
  have split: "2 powr of_int e = 2 ^ 52 * ulp e"
    using powr_add [of "2::real" 52 "of_int e - 52"] by (simp add: ulp_def)
  have "2 ^ 52 * ulp e \<le> x" using pe split by simp
  then have "2 ^ 52 \<le> x / ulp e" using u by (simp add: pos_le_divide_eq)
  then have "(2 ^ 52 :: int) \<le> \<lfloor>x / ulp e\<rfloor>" by (simp add: le_floor_iff)
  also have "\<dots> \<le> round_half_even (x / ulp e)" by (rule round_half_even_ge)
  finally have "(2 ^ 52 :: real) \<le> of_int (round_half_even (x / ulp e))"
    by (metis of_int_le_iff of_int_numeral of_int_power)
  then have "2 ^ 52 * ulp e \<le> of_int (round_half_even (x / ulp e)) * ulp e"
    using u by simp
  then have "2 powr of_int e \<le> r" using split r by simp
  moreover have "1 \<le> (2::real) powr of_int e" using e0 by (simp add: ge_one_powr_ge_zero)
  ultimately show "1 \<le> r" by simp
qed


lemma ulp_3: "ulp 3 = 1 / 2 ^ 49"
  by (simp add: ulp_def powr_minus inverse_eq_divide)

lemma ulp_1: "ulp 1 = 1 / 2 ^ 51"
  by (simp add: ulp_def powr_minus inverse_eq_divide)

lemma ulp_m1: "ulp (- 1) = 1 / 2 ^ 53"
  by (simp add: ulp_def powr_minus inverse_eq_divide)

lemma round_double_quotient: "round_double (1 / (3602879701896397 / 2 ^ 55)) = Some 10"
proof -
  let ?x = "1 / (3602879701896397 / 2 ^ 55) :: real"
  have k: "round_half_even (?x / ulp 3) = 10 * 2 ^ 49"
    by (simp add: ulp_3 round_half_even_def Let_def)
  have l: "\<bar>of_int (10 * 2 ^ 49) * ulp 3\<bar> < double_limit"
    by (rule small) (simp_all add: ulp_3)
  have "round_double ?x = Some (of_int (10 * 2 ^ 49) * ulp 3)"
    by (rule round_double_at [OF _ _ _ _ k l]) simp_all
  then show ?thesis by (simp add: ulp_3)
qed

lemma round_double_11: "round_double 11 = Some 11"
proof -
  have k: "round_half_even (11 / ulp 3) = 11 * 2 ^ 49"
    by (simp add: ulp_3 round_half_even_def Let_def)
  have l: "\<bar>of_int (11 * 2 ^ 49) * ulp 3\<bar> < double_limit"
    by (rule small) (simp_all add: ulp_3)
  have "round_double 11 = Some (of_int (11 * 2 ^ 49) * ulp 3)"
    by (rule round_double_at [OF _ _ _ _ k l]) simp_all
  then show ?thesis by (simp add: ulp_3)
qed



lemma round_half_even_int: "round_half_even (of_int k) = k"
  by (simp add: round_half_even_def)

lemma pow_ulp: "2 powr of_int e = 2 ^ 52 * ulp e"
  using powr_add [of "2::real" 52 "of_int e - 52"] by (simp add: ulp_def)

lemma pow_ulp_next: "2 powr (of_int e + 1) = 2 ^ 53 * ulp e"
  using powr_add [of "2::real" 53 "of_int e - 52"] by (simp add: ulp_def add.commute)

lemma round_double_representable:
  assumes "2 ^ 52 \<le> k" "k < 2 ^ 53" "- 1022 \<le> e" "e \<le> 1023"
  shows "round_double (of_int k * ulp e) = Some (of_int k * ulp e)"
proof -
  let ?x = "of_int k * ulp e :: real"
  have u: "0 < ulp e" by (simp add: ulp_def)
  have k1: "(2 ^ 52 :: real) \<le> of_int k"
    using assms(1) by (metis of_int_le_iff of_int_numeral of_int_power)
  have k2: "of_int k < (2 ^ 53 :: real)"
    using assms(2) by (metis of_int_less_iff of_int_numeral of_int_power)
  have pos: "0 < ?x" using k1 u by simp
  have lo: "2 powr of_int e \<le> ?x" unfolding pow_ulp using k1 u by simp
  have "?x < 2 powr (of_int e + 1)" unfolding pow_ulp_next using k2 u by simp
  then have hi: "?x < 2 powr of_int (e + 1)" by simp
  have "of_int (e + 1) \<le> (1024::real)" using assms(4) by simp
  then have "(2::real) powr of_int (e + 1) \<le> 2 powr 1024" by (simp only: powr_le_cancel_iff) 
  also have "(2::real) powr 1024 = 2 ^ 1024" by (rule powr_numeral) simp
  finally have "?x < double_limit" using hi unfolding double_limit_def by simp
  then have l: "\<bar>?x\<bar> < double_limit" using pos by simp
  have k: "round_half_even (?x / ulp e) = k" using u by (simp add: round_half_even_int)
  show ?thesis by (rule round_double_at [OF pos lo hi assms(3) k l])
qed

lemma ulp_2: "ulp 2 = 1 / 2 ^ 50"
  by (simp add: ulp_def powr_minus inverse_eq_divide)

lemma round_double_values:
  "round_double 2 = Some 2"
  "round_double 3 = Some 3"
  "round_double 7 = Some 7"
  "round_double (1 / 2) = Some (1 / 2)"
  "round_double (3 / 2) = Some (3 / 2)"
  "round_double (7 / 4) = Some (7 / 4)"
  "round_double (11 / 4) = Some (11 / 4)"
  using round_double_representable [of "2 ^ 52" 1]
    round_double_representable [of "3 * 2 ^ 51" 1]
    round_double_representable [of "7 * 2 ^ 50" 2]
    round_double_representable [of "2 ^ 52" "- 1"]
    round_double_representable [of "3 * 2 ^ 51" 0]
    round_double_representable [of "7 * 2 ^ 50" 0]
    round_double_representable [of "11 * 2 ^ 49" 1]
  by (simp_all add: ulp_0 ulp_1 ulp_2 ulp_m1)

lemma double_count_tenth: "n_samples round_double cfg_tenth = Inr 11"
  unfolding cfg_tenth_def
  by (rule n_samples_rounded_quotient [OF round_double_1 round_double_quotient round_double_11])


lemma exact_count_tenth: "n_samples exact cfg_tenth = Inr 10"
  by (simp add: cfg_tenth_def n_samples_def getitem_def float_div_def float_abs_def
      float_add_def int_of_float_def exact_def py_int_def)

lemma exact_count_below_one: "n_samples exact cfg_below_one = Inr 1"
  by (simp add: cfg_below_one_def n_samples_def getitem_def float_div_def float_abs_def
      float_add_def int_of_float_def exact_def py_int_def)

subsection \<open>Evenly spaced samples: length and elements\<close>

lemma length_linspace: "length (linspace a b n) = n"
  by (simp add: linspace_def)



lemma x_samples_ok:
  assumes "n_samples fl s = Inr n" "0 \<le> n"
  shows "x_samples fl s = Inr (linspace (boundary s ! 0) (final_x s) (nat n))"
proof -
  from n_samples_Inr [OF assms(1)] have "boundary s \<noteq> []" by blast
  with assms show ?thesis by (simp add: x_samples_def getitem_def)
qed

lemma x_samples_Inr:
  assumes "x_samples fl s = Inr x"
  shows "\<exists>n. n_samples fl s = Inr n \<and> 0 \<le> n
            \<and> x = linspace (boundary s ! 0) (final_x s) (nat n)"
  using assms
  by (auto simp: x_samples_def getitem_def split: if_splits sum.splits)

lemma y_init_ok:
  assumes "2 \<le> length (boundary s)" "x \<noteq> []"
  shows "y_init s x = Inr ((replicate (length x) 0)[0 := boundary s ! 1])"
  using assms by (simp add: y_init_def getitem_def)

lemma y_init_Inr:
  assumes "y_init s x = Inr y"
  shows "2 \<le> length (boundary s) \<and> x \<noteq> [] \<and> length y = length x \<and> y ! 0 = boundary s ! 1"
  using assms by (auto simp: y_init_def getitem_def split: if_splits sum.splits)

subsection \<open>The methods as instances of the skeleton\<close>

lemma loop_shape_Inr:
  assumes R: "loop_shape fl s G = Inr (X, Y)"
  shows "x_samples fl s = Inr X \<and> 2 \<le> length (boundary s) \<and> X \<noteq> [] \<and> length Y = length X
       \<and> Y ! 0 = boundary s ! 1
       \<and> (\<forall>j. 0 < j \<and> j < length X \<longrightarrow> Y ! j = G X j (Y ! (j - 1)))"
proof -
  from R obtain y where x: "x_samples fl s = Inr X" and y: "y_init s X = Inr y"
    and Y: "Y = fold (\<lambda>i y. y[i := G X i (y ! (i - 1))]) [1..<length X] y"
    by (auto simp: loop_shape_def split: sum.splits)
  from y_init_Inr [OF y] have b: "2 \<le> length (boundary s)" "X \<noteq> []"
    and ly: "length y = length X" and y0: "y ! 0 = boundary s ! 1" by blast+
  have "length X \<le> length y" using ly by simp
  from fold_upd_inv [OF this, of "G X"] have
    1: "length Y = length y" and
    2: "\<And>j. length X \<le> j \<or> j = 0 \<Longrightarrow> Y ! j = y ! j" and
    3: "\<And>j. 0 < j \<and> j < length X \<Longrightarrow> Y ! j = G X j (Y ! (j - 1))"
    unfolding Y by blast+
  have "Y ! 0 = boundary s ! 1" using 2 [of 0] y0 by simp
  with x b 1 ly 3 show ?thesis by simp
qed

lemma loop_shape_ok:
  assumes n: "n_samples fl s = Inr n" "1 \<le> n" and b: "2 \<le> length (boundary s)"
  shows "\<exists>Y. loop_shape fl s G = Inr (linspace (boundary s ! 0) (final_x s) (nat n), Y)"
proof -
  let ?X = "linspace (boundary s ! 0) (final_x s) (nat n)"
  have "0 \<le> n" using n(2) by simp
  from x_samples_ok [OF n(1) this] have x: "x_samples fl s = Inr ?X" .
  have "length ?X \<noteq> 0" using n(2) by (simp add: length_linspace)
  then have "?X \<noteq> []" by simp
  from y_init_ok [OF b this] show ?thesis unfolding loop_shape_def x by simp
qed

lemma loop_shape_Inl:
  assumes "x_samples fl s = Inl e"
  shows "loop_shape fl s G = Inl e"
  using assms by (simp add: loop_shape_def)

lemma euler_shape:
  "euler fl s = loop_shape fl s (\<lambda>x i v. v + f s (x ! (i - 1)) v * h s)"
  unfolding euler_def loop_shape_def by (rule refl)

lemma runge2nd_shape:
  assumes "a2 \<noteq> 0"
  shows "runge2nd fl s a2 = loop_shape fl s (\<lambda>x i v. v +
                                 ((1 - a2) * f s (x ! (i - 1)) v +
                                  a2 * f s (x ! (i - 1) + 1 / (2 * a2) * h s)
                                           (v + 1 / (2 * a2) * f s (x ! (i - 1)) v * h s))
                                 * h s)"
proof -
  have t: "truediv 1 (2 * a2) = Inr (1 / (2 * a2))"
    using assms by (simp add: truediv_def)
  show ?thesis
    unfolding runge2nd_def loop_shape_def Let_def t sum.case by (rule refl)
qed

lemma runge2nd_zero: "runge2nd fl s 0 = Inl ZeroDivisionError"
  by (simp add: runge2nd_def truediv_def)

lemma classic4th_shape:
  "classic4th fl s = loop_shape fl s (\<lambda>x i v.
                          (let k1 = f s (x ! (i - 1)) v;
                               k2 = f s (x ! (i - 1) + h s / 2) (v + k1 * h s / 2);
                               k3 = f s (x ! (i - 1) + h s / 2) (v + k2 * h s / 2);
                               k4 = f s (x ! (i - 1) + h s) (v + k3 * h s)
                           in v + (1 / 6) * (k1 + 2 * k2 + 2 * k3 + k4) * h s))"
  unfolding classic4th_def loop_shape_def Let_def by (rule refl)

lemma methods_cases:
  assumes "m \<in> set (methods a2)"
    and "P euler" "P (\<lambda>fl s. runge2nd fl s a2)" "P heun" "P ralston" "P midpoint" "P classic4th"
  shows "P m"
proof -
  from assms(1) have "m = euler \<or> m = (\<lambda>fl s. runge2nd fl s a2) \<or> m = heun \<or> m = ralston
      \<or> m = midpoint \<or> m = classic4th"
    unfolding methods_def by (simp only: list.set insert_iff empty_iff simp_thms)
  then show ?thesis
    using assms(2-) by (elim disjE) (simp_all only:)
qed

lemma runge2nd_has_shape:
  assumes "a \<noteq> 0"
  shows "\<exists>G. runge2nd fl s a = loop_shape fl s G"
  using runge2nd_shape [OF assms, of fl s] by blast

lemma methods_shape:
  assumes "m \<in> set (methods a2)" "a2 \<noteq> 0"
  shows "\<exists>G. m fl s = loop_shape fl s G"
proof (rule methods_cases [OF assms(1)])
  show "\<exists>G. euler fl s = loop_shape fl s G"
    using euler_shape [of fl s] by blast
  show "\<exists>G. classic4th fl s = loop_shape fl s G"
    using classic4th_shape [of fl s] by blast
  show "\<exists>G. runge2nd fl s a2 = loop_shape fl s G"
    by (rule runge2nd_has_shape [OF assms(2)])
  show "\<exists>G. heun fl s = loop_shape fl s G"
    unfolding heun_def by (rule runge2nd_has_shape) simp
  show "\<exists>G. ralston fl s = loop_shape fl s G"
    unfolding ralston_def by (rule runge2nd_has_shape) simp
  show "\<exists>G. midpoint fl s = loop_shape fl s G"
    unfolding midpoint_def by (rule runge2nd_has_shape) simp
qed

lemma methods_Inr_shape:
  assumes "m \<in> set (methods a2)" "m fl s = Inr (X, Y)"
  shows "\<exists>G. m fl s = loop_shape fl s G"
proof -
  have r: "runge2nd fl s a = Inr (X, Y) \<longrightarrow> (\<exists>G. runge2nd fl s a = loop_shape fl s G)" for a
  proof (cases "a = 0")
    case True
    then show ?thesis by (simp add: runge2nd_zero)
  next
    case False
    from runge2nd_has_shape [OF this, of fl s] show ?thesis by blast
  qed
  have "m fl s = Inr (X, Y) \<longrightarrow> (\<exists>G. m fl s = loop_shape fl s G)"
  proof (rule methods_cases [OF assms(1),
        where P = "\<lambda>m. m fl s = Inr (X, Y) \<longrightarrow> (\<exists>G. m fl s = loop_shape fl s G)"])
    show "euler fl s = Inr (X, Y) \<longrightarrow> (\<exists>G. euler fl s = loop_shape fl s G)"
      using euler_shape [of fl s] by blast
    show "classic4th fl s = Inr (X, Y) \<longrightarrow> (\<exists>G. classic4th fl s = loop_shape fl s G)"
      using classic4th_shape [of fl s] by blast
    show "runge2nd fl s a2 = Inr (X, Y) \<longrightarrow> (\<exists>G. runge2nd fl s a2 = loop_shape fl s G)"
      by (rule r)
    show "heun fl s = Inr (X, Y) \<longrightarrow> (\<exists>G. heun fl s = loop_shape fl s G)"
      unfolding heun_def by (rule r)
    show "ralston fl s = Inr (X, Y) \<longrightarrow> (\<exists>G. ralston fl s = loop_shape fl s G)"
      unfolding ralston_def by (rule r)
    show "midpoint fl s = Inr (X, Y) \<longrightarrow> (\<exists>G. midpoint fl s = loop_shape fl s G)"
      unfolding midpoint_def by (rule r)
  qed
  with assms(2) show ?thesis by blast
qed

subsection \<open>Evenly spaced samples\<close>




lemma methods_ok:
  assumes "n_samples fl s = Inr n" "1 \<le> n" "2 \<le> length (boundary s)" "a2 \<noteq> 0"
    and "m \<in> set (methods a2)"
  shows "\<exists>Y. m fl s = Inr (linspace (boundary s ! 0) (final_x s) (nat n), Y)
          \<and> length Y = nat n"
proof -
  from methods_shape [OF assms(5,4), of fl s] obtain G where m: "m fl s = loop_shape fl s G" ..
  from loop_shape_ok [OF assms(1,2,3), of G] obtain Y where
    Y: "loop_shape fl s G = Inr (linspace (boundary s ! 0) (final_x s) (nat n), Y)" ..
  from loop_shape_Inr [OF Y] have
    "length Y = length (linspace (boundary s ! 0) (final_x s) (nat n))" by blast
  then have "length Y = nat n" by (simp only: length_linspace)
  with m Y show ?thesis by simp
qed

subsection \<open>The methods on the example configurations\<close>

lemmas run_simps = euler_def runge2nd_def classic4th_def heun_def ralston_def midpoint_def
  y_init_def x_samples_def n_samples_def getitem_def truediv_def float_div_def float_abs_def
  float_add_def int_of_float_def py_int_def linspace_def upt_rec Let_def
  round_double_1 round_double_values

lemma uneven_runs:
  "euler round_double cfg_uneven = Inr ([0, 7], [0, 4])"
  "runge2nd round_double cfg_uneven 1 = Inr ([0, 7], [0, 4])"
  "heun round_double cfg_uneven = Inr ([0, 7], [0, 4])"
  "ralston round_double cfg_uneven = Inr ([0, 7], [0, 4])"
  "midpoint round_double cfg_uneven = Inr ([0, 7], [0, 4])"
  "classic4th round_double cfg_uneven = Inr ([0, 7], [0, 4])"
  by (simp_all add: cfg_uneven_def run_simps)


subsection \<open>The two loops of compare\<close>

lemma validate_ok:
  assumes "\<forall>i\<in>set args. method_name i \<in> set (py_dir env)"
  shows "validate env args = Inr ()"
  using assms by (induction args) simp_all

lemma validate_fail:
  assumes "find (\<lambda>i. method_name i \<notin> set (py_dir env)) args = Some j"
  shows "validate env args = Inl (Exception (no_method_msg j))"
  using assms by (induction args) (simp_all split: if_splits)

lemma find_offending:
  assumes "i \<in> set args" "method_name i \<notin> set (py_dir env)"
  shows "\<exists>j. find (\<lambda>i. method_name i \<notin> set (py_dir env)) args = Some j"
proof (cases "find (\<lambda>i. method_name i \<notin> set (py_dir env)) args")
  case None
  with assms show ?thesis by (auto simp: find_None_iff)
next
  case (Some j)
  then show ?thesis by blast
qed

lemma py_dir_update [simp]:
  "py_dir (env\<lparr>eval_other := ev, plot_other := pl\<rparr>) = py_dir env"
  by (simp add: py_dir_def)

lemma samples_lengths:
  assumes "m \<in> set (methods a2)" "m fl s = Inr (X, Y)"
  shows "length X = length Y"
proof -
  from methods_Inr_shape [OF assms] obtain G where "m fl s = loop_shape fl s G" ..
  with assms(2) have "loop_shape fl s G = Inr (X, Y)" by simp
  from loop_shape_Inr [OF this] show ?thesis by simp
qed

lemma run_label_samples:
  assumes "py_eval fl s env i = lift_samples (m fl s)" "m \<in> set (methods a2)" "m fl s = Inr (X, Y)"
  shows "run_labels fl s env (i # args) results
           = run_labels fl s env args (dict_set results i (Samples X Y))"
proof -
  have "length X = length Y" by (rule samples_lengths [OF assms(2,3)])
  then show ?thesis
    by (simp add: assms(1,3) lift_samples_def plot_unpacked_def)
qed

section \<open>The claims about the integration methods\<close>

text \<open>
  Claim C4. \<open>runge2nd\<close> called with \<open>a2 = 0\<close> fails with a division error: line 61,
  \<open>p = 1/(2*a2)\<close>, raises ZeroDivisionError before any sample is built, for every
  configuration, so no sequence holding NaN or infinity is returned.
\<close>

theorem runge2nd_zero_coefficient: "runge2nd fl s 0 = Inl ZeroDivisionError"
  by (simp add: runge2nd_def truediv_def)

text \<open>
  Claim C5. \<open>heun()\<close> returns what \<open>runge2nd(1/2)\<close> returns, \<open>ralston()\<close> what
  \<open>runge2nd(2/3)\<close> returns and \<open>midpoint()\<close> what \<open>runge2nd(1)\<close> returns, for every
  configuration, errors included: each wrapper is that very call.
\<close>

theorem wrappers_are_runge2nd:
  "heun fl s = runge2nd fl s (1 / 2) \<and> ralston fl s = runge2nd fl s (2 / 3) \<and> midpoint fl s = runge2nd fl s 1"
  by (simp add: heun_def ralston_def midpoint_def)

text \<open>
  Claim C8. Whenever one of the six methods succeeds, the sequence \<open>Y\<close> it returns is not
  empty and its first element is the boundary y-value \<open>boundary[1]\<close>.
\<close>

theorem first_y_is_boundary:
  assumes "m \<in> set (methods a2)" "m fl s = Inr (X, Y)"
  shows "Y \<noteq> [] \<and> getitem (boundary s) 1 = Inr (Y ! 0)"
proof -
  from methods_Inr_shape [OF assms] obtain G where "m fl s = loop_shape fl s G" ..
  with assms(2) have "loop_shape fl s G = Inr (X, Y)" by simp
  from loop_shape_Inr [OF this] have
    "2 \<le> length (boundary s)" "X \<noteq> []" "length Y = length X" "Y ! 0 = boundary s ! 1"
    by blast+
  then show ?thesis by (auto simp: getitem_def)
qed

theorem first_y_is_boundary_witness:
  "euler \<in> set (methods 1) \<and> euler round_double cfg_even = Inr ([0, 1 / 2, 1], [1, 3 / 2, 9 / 4])
   \<and> [1, 3 / 2, 9 / 4 :: real] \<noteq> [] \<and> getitem (boundary cfg_even) 1 = Inr ([1, 3 / 2, 9 / 4] ! 0)"
proof -
  have m: "euler \<in> set (methods 1)" by (simp add: methods_def)
  have e: "euler round_double cfg_even = Inr ([0, 1 / 2, 1], [1, 3 / 2, 9 / 4])"
    by (simp add: cfg_even_def run_simps)
  from first_y_is_boundary [OF m e] m e show ?thesis by simp
qed

text \<open>
  Claim C10. When the step \<open>h\<close> is \<open>0\<close> (and \<open>boundary[0]\<close> exists), the sample count
  raises ZeroDivisionError, and so does each of the six methods, \<open>runge2nd\<close> at any
  \<open>a2 \<noteq> 0\<close>: no X or Y sample is produced.
\<close>

theorem zero_step_raises:
  assumes "h s = 0" "boundary s \<noteq> []" "a2 \<noteq> 0" "m \<in> set (methods a2)"
  shows "n_samples fl s = Inl ZeroDivisionError \<and> m fl s = Inl ZeroDivisionError"
proof -
  have n: "n_samples fl s = Inl ZeroDivisionError"
    using assms(1,2) by (simp add: n_samples_def getitem_def float_div_def)
  then have x: "x_samples fl s = Inl ZeroDivisionError"
    using assms(2) by (simp add: x_samples_def getitem_def)
  from methods_shape [OF assms(4,3), of fl s] obtain G where "m fl s = loop_shape fl s G" ..
  with loop_shape_Inl [OF x, of G] n show ?thesis by simp
qed

theorem zero_step_raises_witness:
  "h cfg_zero_step = 0 \<and> boundary cfg_zero_step \<noteq> [] \<and> (2 / 3 :: real) \<noteq> 0
   \<and> classic4th \<in> set (methods (2 / 3))
   \<and> n_samples round_double cfg_zero_step = Inl ZeroDivisionError
   \<and> classic4th round_double cfg_zero_step = Inl ZeroDivisionError"
proof -
  have a: "h cfg_zero_step = 0" "boundary cfg_zero_step \<noteq> []" "(2 / 3 :: real) \<noteq> 0"
    "classic4th \<in> set (methods (2 / 3))"
    by (simp_all add: cfg_zero_step_def methods_def)
  from zero_step_raises [OF a, of round_double] a show ?thesis by simp
qed


text \<open>
  Claim C1, as amended. In every method the factor that advances \<open>Y[i-1]\<close> to \<open>Y[i]\<close> is
  the nominal step \<open>h\<close> given at construction: each \<open>Y[i]\<close> with \<open>0 < i < n\<close> is the
  specification's step formula for that method evaluated at \<open>step = h\<close>, whatever the
  spacing of the X samples is.
\<close>

theorem step_factor_is_nominal:
  assumes "0 < i" "i < length Y"
  shows "(euler fl s = Inr (X, Y) \<longrightarrow>
            Y ! i = euler_formula (f s) (h s) (X ! (i - 1)) (Y ! (i - 1)))
       \<and> (runge2nd fl s a2 = Inr (X, Y) \<longrightarrow>
            Y ! i = runge2nd_formula (f s) a2 (h s) (X ! (i - 1)) (Y ! (i - 1)))
       \<and> (heun fl s = Inr (X, Y) \<longrightarrow>
            Y ! i = runge2nd_formula (f s) (1 / 2) (h s) (X ! (i - 1)) (Y ! (i - 1)))
       \<and> (ralston fl s = Inr (X, Y) \<longrightarrow>
            Y ! i = runge2nd_formula (f s) (2 / 3) (h s) (X ! (i - 1)) (Y ! (i - 1)))
       \<and> (midpoint fl s = Inr (X, Y) \<longrightarrow>
            Y ! i = runge2nd_formula (f s) 1 (h s) (X ! (i - 1)) (Y ! (i - 1)))
       \<and> (classic4th fl s = Inr (X, Y) \<longrightarrow>
            Y ! i = classic4th_formula (f s) (h s) (X ! (i - 1)) (Y ! (i - 1)))"
proof -
  have step: "Y ! i = G X i (Y ! (i - 1))" if "loop_shape fl s G = Inr (X, Y)" for G
  proof -
    from loop_shape_Inr [OF that] have l: "length Y = length X"
      and r: "\<forall>j. 0 < j \<and> j < length X \<longrightarrow> Y ! j = G X j (Y ! (j - 1))" by blast+
    from assms l have "0 < i \<and> i < length X" by simp
    with r show ?thesis by blast
  qed
  have e: "euler fl s = Inr (X, Y) \<longrightarrow>
            Y ! i = euler_formula (f s) (h s) (X ! (i - 1)) (Y ! (i - 1))"
  proof
    assume "euler fl s = Inr (X, Y)"
    then have "loop_shape fl s (\<lambda>x i v. v + f s (x ! (i - 1)) v * h s) = Inr (X, Y)"
      by (simp only: euler_shape)
    from step [OF this] show "Y ! i = euler_formula (f s) (h s) (X ! (i - 1)) (Y ! (i - 1))"
      by (simp add: euler_formula_def)
  qed
  have r: "runge2nd fl s a = Inr (X, Y) \<longrightarrow>
            Y ! i = runge2nd_formula (f s) a (h s) (X ! (i - 1)) (Y ! (i - 1))" for a
  proof
    assume a: "runge2nd fl s a = Inr (X, Y)"
    then have "a \<noteq> 0" using runge2nd_zero [of fl s] by auto
    from a have "loop_shape fl s (\<lambda>x i v. v +
                                 ((1 - a) * f s (x ! (i - 1)) v +
                                  a * f s (x ! (i - 1) + 1 / (2 * a) * h s)
                                           (v + 1 / (2 * a) * f s (x ! (i - 1)) v * h s))
                                 * h s) = Inr (X, Y)"
      by (simp only: runge2nd_shape [OF \<open>a \<noteq> 0\<close>])
    from step [OF this]
    show "Y ! i = runge2nd_formula (f s) a (h s) (X ! (i - 1)) (Y ! (i - 1))"
      by (simp add: runge2nd_formula_def Let_def)
  qed
  have c: "classic4th fl s = Inr (X, Y) \<longrightarrow>
            Y ! i = classic4th_formula (f s) (h s) (X ! (i - 1)) (Y ! (i - 1))"
  proof
    assume "classic4th fl s = Inr (X, Y)"
    then have "loop_shape fl s (\<lambda>x i v.
                          (let k1 = f s (x ! (i - 1)) v;
                               k2 = f s (x ! (i - 1) + h s / 2) (v + k1 * h s / 2);
                               k3 = f s (x ! (i - 1) + h s / 2) (v + k2 * h s / 2);
                               k4 = f s (x ! (i - 1) + h s) (v + k3 * h s)
                           in v + (1 / 6) * (k1 + 2 * k2 + 2 * k3 + k4) * h s)) = Inr (X, Y)"
      by (simp only: classic4th_shape)
    from step [OF this]
    show "Y ! i = classic4th_formula (f s) (h s) (X ! (i - 1)) (Y ! (i - 1))"
      by (simp add: classic4th_formula_def Let_def)
  qed
  show ?thesis
    using e c r [of a2] r [of "1 / 2"] r [of "2 / 3"] r [of 1]
    unfolding heun_def ralston_def midpoint_def by (intro conjI)
qed

theorem step_factor_is_nominal_witness:
  "(0::nat) < 1 \<and> 1 < length [0, 4 :: real]
   \<and> euler round_double cfg_uneven = Inr ([0, 7], [0, 4])
   \<and> runge2nd round_double cfg_uneven 1 = Inr ([0, 7], [0, 4])
   \<and> heun round_double cfg_uneven = Inr ([0, 7], [0, 4])
   \<and> ralston round_double cfg_uneven = Inr ([0, 7], [0, 4])
   \<and> midpoint round_double cfg_uneven = Inr ([0, 7], [0, 4])
   \<and> classic4th round_double cfg_uneven = Inr ([0, 7], [0, 4])
   \<and> [0, 4 :: real] ! 1 = euler_formula (f cfg_uneven) (h cfg_uneven) ([0, 7] ! (1 - 1)) ([0, 4] ! (1 - 1))
   \<and> [0, 4 :: real] ! 1 = runge2nd_formula (f cfg_uneven) 1 (h cfg_uneven) ([0, 7] ! (1 - 1)) ([0, 4] ! (1 - 1))
   \<and> [0, 4 :: real] ! 1 = runge2nd_formula (f cfg_uneven) (1 / 2) (h cfg_uneven) ([0, 7] ! (1 - 1)) ([0, 4] ! (1 - 1))
   \<and> [0, 4 :: real] ! 1 = runge2nd_formula (f cfg_uneven) (2 / 3) (h cfg_uneven) ([0, 7] ! (1 - 1)) ([0, 4] ! (1 - 1))
   \<and> [0, 4 :: real] ! 1 = classic4th_formula (f cfg_uneven) (h cfg_uneven) ([0, 7] ! (1 - 1)) ([0, 4] ! (1 - 1))"
proof -
  have i: "(0::nat) < 1" "1 < length [0, 4 :: real]" by simp_all
  from step_factor_is_nominal [OF i, of round_double cfg_uneven "[0, 7]" 1] uneven_runs i
  show ?thesis by simp
qed

text \<open>
  Claim C1 as stated fails. For \<open>dy/dx = 1\<close> from \<open>(0, 0)\<close> to \<open>x = 7\<close> with \<open>h = 4\<close> the
  samples are \<open>X = [0, 7]\<close>, spaced \<open>7\<close> apart, and every method returns \<open>Y = [0, 4]\<close>:
  the formulas evaluated at the spacing \<open>(x_final - x0)/(n-1) = 7\<close> give \<open>Y[1] = 7\<close>.
\<close>

theorem step_factor_spacing_counterexample:
  "h cfg_uneven \<noteq> (final_x cfg_uneven - boundary cfg_uneven ! 0) / real (length [0, 7 :: real] - 1)
   \<and> euler round_double cfg_uneven = Inr ([0, 7], [0, 4])
   \<and> [0, 4 :: real] ! 1 \<noteq> euler_formula (f cfg_uneven)
        ((final_x cfg_uneven - boundary cfg_uneven ! 0) / real (length [0, 7 :: real] - 1))
        ([0, 7] ! 0) ([0, 4] ! 0)
   \<and> runge2nd round_double cfg_uneven 1 = Inr ([0, 7], [0, 4])
   \<and> [0, 4 :: real] ! 1 \<noteq> runge2nd_formula (f cfg_uneven) 1
        ((final_x cfg_uneven - boundary cfg_uneven ! 0) / real (length [0, 7 :: real] - 1))
        ([0, 7] ! 0) ([0, 4] ! 0)
   \<and> heun round_double cfg_uneven = Inr ([0, 7], [0, 4])
   \<and> [0, 4 :: real] ! 1 \<noteq> runge2nd_formula (f cfg_uneven) (1 / 2)
        ((final_x cfg_uneven - boundary cfg_uneven ! 0) / real (length [0, 7 :: real] - 1))
        ([0, 7] ! 0) ([0, 4] ! 0)
   \<and> ralston round_double cfg_uneven = Inr ([0, 7], [0, 4])
   \<and> [0, 4 :: real] ! 1 \<noteq> runge2nd_formula (f cfg_uneven) (2 / 3)
        ((final_x cfg_uneven - boundary cfg_uneven ! 0) / real (length [0, 7 :: real] - 1))
        ([0, 7] ! 0) ([0, 4] ! 0)
   \<and> midpoint round_double cfg_uneven = Inr ([0, 7], [0, 4])
   \<and> classic4th round_double cfg_uneven = Inr ([0, 7], [0, 4])
   \<and> [0, 4 :: real] ! 1 \<noteq> classic4th_formula (f cfg_uneven)
        ((final_x cfg_uneven - boundary cfg_uneven ! 0) / real (length [0, 7 :: real] - 1))
        ([0, 7] ! 0) ([0, 4] ! 0)"
proof -
  have "h cfg_uneven = 4" "f cfg_uneven = (\<lambda>x y. 1)"
    "(final_x cfg_uneven - boundary cfg_uneven ! 0) / real (length [0, 7 :: real] - 1) = 7"
    by (simp_all add: cfg_uneven_def)
  then show ?thesis
    by (simp add: uneven_runs euler_formula_def runge2nd_formula_def classic4th_formula_def Let_def)
qed

text \<open>
  Claim C2, as amended. For \<open>h \<noteq> 0\<close>, when no operation of the count overflows, every
  method returns \<open>n = int(|q| + 1)\<close> samples, where \<open>q\<close> is the machine quotient of the
  machine difference \<open>x_final - x0\<close> by \<open>h\<close> and the sum is the machine sum: the sum is
  truncated (it is at least 1, so \<open>int\<close> is the floor), and nothing is rounded to the
  nearest integer.
\<close>

theorem sample_count_truncates:
  assumes "rounds_above_one fl" "h s \<noteq> 0" "2 \<le> length (boundary s)" "a2 \<noteq> 0"
    and "m \<in> set (methods a2)"
    and "fl (final_x s - boundary s ! 0) = Some d" "fl (d / h s) = Some q"
    and "fl (\<bar>q\<bar> + 1) = Some v"
  shows "\<exists>X Y. m fl s = Inr (X, Y) \<and> int (length X) = \<lfloor>v\<rfloor> \<and> 1 \<le> v
          \<and> length Y = length X"
proof -
  from assms(3) have ne: "boundary s \<noteq> []" by auto
  have n: "n_samples fl s = Inr (py_int v)"
    by (rule n_samples_ok [OF assms(2) ne assms(6,7,8)])
  from n_samples_pos [OF assms(1) n] have pos: "1 \<le> py_int v" .
  have "1 \<le> \<bar>q\<bar> + 1" by simp
  with assms(1,8) have v: "1 \<le> v" unfolding rounds_above_one_def by blast
  then have fl: "py_int v = \<lfloor>v\<rfloor>" by (simp add: py_int_def)
  from methods_ok [OF n pos assms(3,4,5)] obtain Y where
    "m fl s = Inr (linspace (boundary s ! 0) (final_x s) (nat (py_int v)), Y)"
    "length Y = nat (py_int v)" by blast
  then show ?thesis using pos v fl by (simp add: length_linspace)
qed

theorem sample_count_truncates_witness:
  "rounds_above_one round_double \<and> (1::real) \<noteq> 0 \<and> euler \<in> set (methods 1)
   \<and> h cfg_uneven \<noteq> 0 \<and> 2 \<le> length (boundary cfg_uneven)
   \<and> round_double (final_x cfg_uneven - boundary cfg_uneven ! 0) = Some 7
   \<and> round_double (7 / h cfg_uneven) = Some (7 / 4)
   \<and> round_double (\<bar>7 / 4\<bar> + 1) = Some (11 / 4)
   \<and> (\<exists>X Y. euler round_double cfg_uneven = Inr (X, Y) \<and> int (length X) = \<lfloor>11 / 4 :: real\<rfloor>
          \<and> (1::real) \<le> 11 / 4 \<and> length Y = length X)
   \<and> \<lfloor>11 / 4 :: real\<rfloor> = 2
   \<and> h cfg_tenth \<noteq> 0 \<and> 2 \<le> length (boundary cfg_tenth)
   \<and> round_double (final_x cfg_tenth - boundary cfg_tenth ! 0) = Some 1
   \<and> round_double (1 / h cfg_tenth) = Some 10
   \<and> round_double (\<bar>10\<bar> + 1) = Some 11
   \<and> (\<exists>X Y. euler round_double cfg_tenth = Inr (X, Y) \<and> int (length X) = \<lfloor>11 :: real\<rfloor>
          \<and> (1::real) \<le> 11 \<and> length Y = length X)
   \<and> \<lfloor>\<bar>final_x cfg_tenth - boundary cfg_tenth ! 0\<bar> / \<bar>h cfg_tenth\<bar>\<rfloor> + 1 = 10"
proof -
  have m: "(1::real) \<noteq> 0" "euler \<in> set (methods 1)"
    by (simp_all add: methods_def)
  have a: "h cfg_uneven \<noteq> 0" "2 \<le> length (boundary cfg_uneven)"
    by (simp_all add: cfg_uneven_def)
  have b: "round_double (final_x cfg_uneven - boundary cfg_uneven ! 0) = Some 7"
    "round_double (7 / h cfg_uneven) = Some (7 / 4)"
    "round_double (\<bar>7 / 4\<bar> + 1) = Some (11 / 4)"
    by (simp_all add: cfg_uneven_def round_double_values)
  have c: "\<lfloor>11 / 4 :: real\<rfloor> = 2" by simp
  have a': "h cfg_tenth \<noteq> 0" "2 \<le> length (boundary cfg_tenth)"
    by (simp_all add: cfg_tenth_def)
  have hv: "h cfg_tenth = 3602879701896397 / 2 ^ 55" by (simp add: cfg_tenth_def)
  have q: "round_double (1 / h cfg_tenth) = Some 10"
    unfolding hv by (rule round_double_quotient)
  have d: "round_double (final_x cfg_tenth - boundary cfg_tenth ! 0) = Some 1"
    and v: "round_double (\<bar>10\<bar> + 1) = Some 11"
    by (simp_all add: cfg_tenth_def round_double_1 round_double_11)
  note b' = d q v
  have c': "\<lfloor>\<bar>final_x cfg_tenth - boundary cfg_tenth ! 0\<bar> / \<bar>h cfg_tenth\<bar>\<rfloor> + 1 = 10"
    by (simp add: cfg_tenth_def)
  from sample_count_truncates [OF rounds_above_one_double a m b]
    sample_count_truncates [OF rounds_above_one_double a' m b']
  show ?thesis using rounds_above_one_double m a b c a' b' c' by (intro conjI)
qed

text \<open>
  Claim C2 as stated fails. With \<open>x0 = 0\<close>, \<open>x_final = 7\<close> and \<open>h = 4\<close> the quotient is
  \<open>1.75\<close>, and \<open>7\<close>, \<open>1.75\<close> and \<open>2.75\<close> are doubles, so that nothing is rounded:
  rounding to the nearest integer gives \<open>2 + 1 = 3\<close> samples, and every method returns
  \<open>2\<close>.
\<close>

theorem sample_count_round_counterexample:
  "h cfg_uneven \<noteq> 0
   \<and> euler round_double cfg_uneven = Inr ([0, 7], [0, 4])
   \<and> runge2nd round_double cfg_uneven 1 = Inr ([0, 7], [0, 4])
   \<and> heun round_double cfg_uneven = Inr ([0, 7], [0, 4])
   \<and> ralston round_double cfg_uneven = Inr ([0, 7], [0, 4])
   \<and> midpoint round_double cfg_uneven = Inr ([0, 7], [0, 4])
   \<and> classic4th round_double cfg_uneven = Inr ([0, 7], [0, 4])
   \<and> spec_n_samples cfg_uneven = 3
   \<and> length [0, 7 :: real] \<noteq> spec_n_samples cfg_uneven"
proof -
  have "spec_n_samples cfg_uneven = 3"
    by (simp add: spec_n_samples_def cfg_uneven_def round_def)
  moreover have "h cfg_uneven \<noteq> 0" by (simp add: cfg_uneven_def)
  ultimately show ?thesis by (simp add: uneven_runs)
qed





section \<open>The claims about compare\<close>

text \<open>
  Claim C3, as amended. When the method name of some label (its text before the first
  \<open>(\<close>) is not an attribute name of the object, that is not in \<open>dir(self)\<close>, \<open>compare\<close>
  raises the exception of line 99 (Python's plain \<open>Exception\<close>), whose message quotes
  the first such label. The first loop runs over all labels before the second starts:
  the outcome is the same for every solver, every rounding and every behaviour of
  \<open>eval\<close> and \<open>plt.plot\<close>, so nothing is evaluated, and what is returned is the error,
  never a mapping.
\<close>

theorem compare_unknown_method:
  assumes "i \<in> set args" "method_name i \<notin> set (py_dir env)"
  shows "\<exists>j. find (\<lambda>i. method_name i \<notin> set (py_dir env)) args = Some j
            \<and> j \<in> set args \<and> method_name j \<notin> set (py_dir env)
            \<and> (\<forall>fl s ev pl. compare fl s (env\<lparr>eval_other := ev, plot_other := pl\<rparr>) args
                   = Inl (Exception (no_method_msg j)))"
proof -
  from find_offending [OF assms] obtain j where
    j: "find (\<lambda>i. method_name i \<notin> set (py_dir env)) args = Some j" ..
  then have 1: "j \<in> set args" "method_name j \<notin> set (py_dir env)"
    by (auto simp: find_Some_iff)
  have "compare fl s (env\<lparr>eval_other := ev, plot_other := pl\<rparr>) args
          = Inl (Exception (no_method_msg j))" for fl s ev pl
  proof -
    from j have "find (\<lambda>i. method_name i \<notin> set (py_dir (env\<lparr>eval_other := ev, plot_other := pl\<rparr>))) args = Some j"
      by simp
    from validate_fail [OF this] show ?thesis by (simp add: compare_def)
  qed
  with j 1 show ?thesis by blast
qed

theorem compare_unknown_method_witness:
  "''bogus_method'' \<in> set [''euler'', ''bogus_method'']
   \<and> method_name ''bogus_method'' \<notin> set (py_dir env_sample)
   \<and> find (\<lambda>i. method_name i \<notin> set (py_dir env_sample)) [''euler'', ''bogus_method'']
        = Some ''bogus_method''
   \<and> compare round_double cfg_even env_sample [''euler'', ''bogus_method'']
        = Inl (Exception (''There is no method called '' @ [CHR 0x27] @ ''bogus_method'' @ [CHR 0x27]))"
proof -
  have a: "''bogus_method'' \<in> set [''euler'', ''bogus_method'']"
    "method_name ''bogus_method'' \<notin> set (py_dir env_sample)"
    by (simp_all add: method_name_def py_dir_def env_sample_def)
  have f: "find (\<lambda>i. method_name i \<notin> set (py_dir env_sample)) [''euler'', ''bogus_method'']
        = Some ''bogus_method''"
    by (simp add: method_name_def py_dir_def env_sample_def)
  have e: "env_sample\<lparr>eval_other := eval_other env_sample, plot_other := plot_other env_sample\<rparr>
        = env_sample" by simp
  from compare_unknown_method [OF a] f
  have "\<forall>fl s ev pl. compare fl s (env_sample\<lparr>eval_other := ev, plot_other := pl\<rparr>)
          [''euler'', ''bogus_method''] = Inl (Exception (no_method_msg ''bogus_method''))"
    by simp
  then have "compare round_double cfg_even
      (env_sample\<lparr>eval_other := eval_other env_sample, plot_other := plot_other env_sample\<rparr>)
      [''euler'', ''bogus_method''] = Inl (Exception (no_method_msg ''bogus_method''))"
    by blast
  then show ?thesis using a f unfolding e by (simp add: no_method_msg_def)
qed

text \<open>
  Claim C3 as stated fails for a label that names an attribute which is not an
  operation. \<open>compare('h')\<close> passes validation and raises TypeError when the number is
  unpacked into \<open>plt.plot\<close>, not the exception of line 99; \<open>compare('boundary')\<close> passes
  validation too and, where \<open>plt.plot\<close> accepts two numbers, returns a mapping.
\<close>

theorem compare_non_operation_counterexample:
  "method_name ''h'' \<notin> set integrator_operations
   \<and> compare round_double cfg_even env_sample [''h''] = Inl TypeError
   \<and> method_name ''boundary'' \<notin> set integrator_operations
   \<and> compare round_double cfg_even env_sample [''boundary''] = Inr [(''boundary'', PyList [0, 1])]"
proof -
  have "method_name ''h'' \<notin> set integrator_operations"
    "method_name ''boundary'' \<notin> set integrator_operations"
    by (simp_all add: method_name_def integrator_operations_def)
  moreover have "compare round_double cfg_even env_sample [''h''] = Inl TypeError"
    by (simp add: compare_def method_name_def py_dir_def py_eval_def plot_unpacked_def)
  moreover have "compare round_double cfg_even env_sample [''boundary'']
      = Inr [(''boundary'', PyList [0, 1])]"
    by (simp add: compare_def method_name_def py_dir_def py_eval_def plot_unpacked_def
        env_sample_def cfg_even_def)
  ultimately show ?thesis by (intro conjI)
qed

text \<open>
  Claim C6, as amended. With the labels in call form, \<open>compare('euler()', 'classic4th()')\<close>
  on a configuration whose sample count is computed (\<open>h \<noteq> 0\<close>, no overflow) returns
  the mapping with exactly the keys \<open>euler()\<close> and \<open>classic4th()\<close>, in that order, each
  bound to the pair that the method returns when called directly. With the bare names \<open>euler\<close> and \<open>classic4th\<close> both
  labels pass validation and the call raises TypeError at the first of them: \<open>eval\<close>
  yields the bound method, which \<open>plt.plot(*result)\<close> cannot unpack.
\<close>

theorem compare_call_labels:
  assumes "rounds_above_one fl" "n_samples fl s = Inr n" "2 \<le> length (boundary s)"
  shows "\<exists>X Y X' Y'. euler fl s = Inr (X, Y) \<and> classic4th fl s = Inr (X', Y')
           \<and> compare fl s env [''euler()'', ''classic4th()'']
               = Inr [(''euler()'', Samples X Y), (''classic4th()'', Samples X' Y')]
           \<and> compare fl s env [''euler'', ''classic4th''] = Inl TypeError"
proof -
  have m: "euler \<in> set (methods 1)" "classic4th \<in> set (methods 1)"
    by (simp_all add: methods_def)
  have one: "(1::real) \<noteq> 0" by simp
  from n_samples_pos [OF assms(1,2)] have pos: "1 \<le> n" .
  from methods_ok [OF assms(2) pos assms(3) one m(1)] obtain X Y
    where e: "euler fl s = Inr (X, Y)" by blast
  from methods_ok [OF assms(2) pos assms(3) one m(2)] obtain X' Y'
    where c: "classic4th fl s = Inr (X', Y')" by blast
  have v: "validate env [''euler()'', ''classic4th()''] = Inr ()"
    "validate env [''euler'', ''classic4th''] = Inr ()"
    by (simp_all add: method_name_def py_dir_def)
  have pe: "py_eval fl s env ''euler()'' = lift_samples (euler fl s)"
    and pc: "py_eval fl s env ''classic4th()'' = lift_samples (classic4th fl s)"
    by (simp_all add: py_eval_def)
  have "run_labels fl s env [''euler()'', ''classic4th()''] []
          = Inr [(''euler()'', Samples X Y), (''classic4th()'', Samples X' Y')]"
    unfolding run_label_samples [OF pe m(1) e] run_label_samples [OF pc m(2) c] by simp
  moreover have "run_labels fl s env [''euler'', ''classic4th''] [] = Inl TypeError"
    by (simp add: py_eval_def plot_unpacked_def)
  ultimately show ?thesis using e c v by (simp add: compare_def)
qed

theorem compare_call_labels_witness:
  "rounds_above_one round_double \<and> n_samples round_double cfg_even = Inr 3
   \<and> 2 \<le> length (boundary cfg_even)
   \<and> compare round_double cfg_even env_sample [''euler()'', ''classic4th()'']
       = Inr [(''euler()'', Samples [0, 1 / 2, 1] [1, 3 / 2, 9 / 4]),
              (''classic4th()'', Samples [0, 1 / 2, 1] [1, 211 / 128, 44521 / 16384])]
   \<and> compare round_double cfg_even env_sample [''euler'', ''classic4th''] = Inl TypeError"
proof -
  have a: "n_samples round_double cfg_even = Inr 3" "2 \<le> length (boundary cfg_even)"
    by (simp_all add: cfg_even_def run_simps)
  have e: "euler round_double cfg_even = Inr ([0, 1 / 2, 1], [1, 3 / 2, 9 / 4])"
    by (simp add: cfg_even_def run_simps)
  have c: "classic4th round_double cfg_even = Inr ([0, 1 / 2, 1], [1, 211 / 128, 44521 / 16384])"
    by (simp add: cfg_even_def run_simps)
  from compare_call_labels [OF rounds_above_one_double a, of env_sample]
    rounds_above_one_double a show ?thesis
    unfolding e c by simp
qed

text \<open>
  Claim C6 as stated fails: on \<open>dy/dx = y\<close> from \<open>(0, 1)\<close> to \<open>1\<close> with \<open>h = 1/2\<close>, where
  both methods succeed when called directly, \<open>compare('euler', 'classic4th')\<close> raises
  TypeError and returns no mapping.
\<close>

theorem compare_bare_names_counterexample:
  "compare round_double cfg_even env_sample [''euler'', ''classic4th''] = Inl TypeError
   \<and> euler round_double cfg_even = Inr ([0, 1 / 2, 1], [1, 3 / 2, 9 / 4])
   \<and> classic4th round_double cfg_even = Inr ([0, 1 / 2, 1], [1, 211 / 128, 44521 / 16384])"
proof -
  have "compare round_double cfg_even env_sample [''euler'', ''classic4th''] = Inl TypeError"
    by (simp add: compare_def method_name_def py_dir_def py_eval_def plot_unpacked_def)
  moreover have "euler round_double cfg_even = Inr ([0, 1 / 2, 1], [1, 3 / 2, 9 / 4])"
    by (simp add: cfg_even_def run_simps)
  moreover have "classic4th round_double cfg_even = Inr ([0, 1 / 2, 1], [1, 211 / 128, 44521 / 16384])"
    by (simp add: cfg_even_def run_simps)
  ultimately show ?thesis by (intro conjI)
qed

text \<open>
  Claim C9. Validation accepts every label whose text before the first \<open>(\<close> is a name
  in \<open>dir(self)\<close>, and these include the instance attributes \<open>f\<close>, \<open>h\<close>, \<open>boundary\<close>,
  \<open>final_x\<close> and every inherited name: for such labels the first loop raises nothing,
  and the outcome of \<open>compare\<close> is that of the evaluation loop alone.
\<close>

theorem validation_accepts_attributes:
  assumes "\<forall>i\<in>set args. method_name i \<in> set (py_dir env)"
  shows "set [''f'', ''h'', ''boundary'', ''final_x''] \<union> set (object_names env) \<subseteq> set (py_dir env)
       \<and> validate env args = Inr ()
       \<and> compare fl s env args = run_labels fl s env args []"
proof -
  have "validate env args = Inr ()" by (rule validate_ok [OF assms])
  then show ?thesis by (auto simp: compare_def py_dir_def)
qed

theorem validation_accepts_attributes_witness:
  "method_name ''boundary'' \<in> set (py_dir env_sample)
   \<and> method_name ''__doc__'' \<in> set (py_dir env_sample)
   \<and> method_name ''final_x'' \<in> set (py_dir env_sample)
   \<and> method_name ''h'' \<in> set (py_dir env_sample)
   \<and> method_name ''f'' \<in> set (py_dir env_sample)
   \<and> set [''f'', ''h'', ''boundary'', ''final_x''] \<union> set (object_names env_sample)
        \<subseteq> set (py_dir env_sample)
   \<and> validate env_sample [''boundary'', ''__doc__'', ''final_x'', ''h'', ''f''] = Inr ()
   \<and> compare round_double cfg_even env_sample [''boundary'', ''__doc__'', ''final_x'', ''h'', ''f'']
        = run_labels round_double cfg_even env_sample [''boundary'', ''__doc__'', ''final_x'', ''h'', ''f''] []
   \<and> compare round_double cfg_even env_sample [''h''] = Inl TypeError
   \<and> compare round_double cfg_even env_sample [''f''] = Inl TypeError"
proof -
  have a: "\<forall>i\<in>set [''boundary'', ''__doc__'', ''final_x'', ''h'', ''f''].
       method_name i \<in> set (py_dir env_sample)"
    by (simp add: method_name_def py_dir_def env_sample_def)
  have h: "compare round_double cfg_even env_sample [''h''] = Inl TypeError"
    "compare round_double cfg_even env_sample [''f''] = Inl TypeError"
    by (simp_all add: compare_def method_name_def py_dir_def py_eval_def plot_unpacked_def)
  from validation_accepts_attributes [OF a, of round_double cfg_even] a h show ?thesis by simp
qed

end
